theory Spec2Isabelle
  imports Main "HOL-Library.Multiset"
begin

section \<open>Supervised fine-tuning data pipeline (train/train_SFT.py)\<close>

text \<open>
  The theory embeds the data-shaping code of \<^verbatim>\<open>train/train_SFT.py\<close>: the dataset loader
  (\<^verbatim>\<open>SupervisedDataset.__init__\<close>), the prompt formatter, \<^verbatim>\<open>_tokenize_fn\<close>,
  \<^verbatim>\<open>preprocess\<close> and the two collators of \<^verbatim>\<open>DataCollatorForSupervisedDataset\<close>.
  Library code the file calls (the tokenizer, \<^verbatim>\<open>json\<close>, \<^verbatim>\<open>random.sample\<close>, \<^verbatim>\<open>str\<close> on
  values that are not strings) is a parameter of the model; \<^verbatim>\<open>pad_sequence\<close>, list slicing
  and \<^verbatim>\<open>str.format_map\<close> are written out as Python and PyTorch document them.
\<close>

subsection \<open>Exceptions\<close>

datatype error =
    FileNotFoundError
  | JSONDecodeError
  | TypeError
  | KeyError string
  | IndexError
  | ValueError
  | RuntimeError

subsection \<open>Constants of the module\<close>

definition IGNORE_INDEX :: int where
  "IGNORE_INDEX = - 100"

subsection \<open>The tokenizer\<close>

text \<open>
  \<open>encode tok text max_length\<close> is the only row of the \<open>[1, L]\<close> tensor
  \<^verbatim>\<open>tokenizer(text, return_tensors="pt", padding="longest", max_length=max_length,
  truncation=True).input_ids\<close>. The tokenizer is one with a pad token and an end-of-sequence
  token, as \<^verbatim>\<open>train\<close> sets it up.
\<close>

record tokenizer =
  encode :: "string \<Rightarrow> nat \<Rightarrow> int list"
  model_max_length :: nat
  pad_token_id :: int
  eos_token :: string

text \<open>
  The dictionaries with the keys \<^verbatim>\<open>input_ids\<close> and \<^verbatim>\<open>labels\<close>: a dataset item (two strings),
  a tokenized example (two 1-D tensors), the result of \<^verbatim>\<open>preprocess\<close> (two lists of 1-D
  tensors). A 1-D tensor is an \<open>int list\<close>, a 2-D tensor the list of its rows.
\<close>

record 'a example =
  input_ids :: 'a
  labels :: 'a

record tokenized = "int list list example" +
  input_ids_lens :: "nat list"
  labels_lens :: "nat list"

record batch = "int list list example" +
  attention_mask :: "bool list list"

definition tokenizer_call :: "tokenizer \<Rightarrow> string \<Rightarrow> int list list" where
  "tokenizer_call tok text = [encode tok text (model_max_length tok)]"

text \<open>\<^verbatim>\<open>t.ne(v).sum().item()\<close> on a 2-D tensor.\<close>

definition ne_sum :: "int list list \<Rightarrow> int \<Rightarrow> nat" where
  "ne_sum t v = sum_list (map (\<lambda>row. length (filter (\<lambda>x. x \<noteq> v) row)) t)"

definition tokenize_fn :: "string list \<Rightarrow> tokenizer \<Rightarrow> tokenized" where
  "tokenize_fn strings tok =
     (let tokenized_list = map (\<lambda>text. tokenizer_call tok text) strings;
          ids = map (\<lambda>tokenized. tokenized ! 0) tokenized_list;
          lens = map (\<lambda>tokenized. ne_sum tokenized (pad_token_id tok)) tokenized_list
      in \<lparr>input_ids = ids, labels = ids, input_ids_lens = lens, labels_lens = lens\<rparr>)"

subsection \<open>preprocess\<close>

text \<open>\<^verbatim>\<open>label[:source_len] = IGNORE_INDEX\<close> on a 1-D tensor: the slice stops at the end.\<close>

definition fill_prefix :: "int list \<Rightarrow> nat \<Rightarrow> int \<Rightarrow> int list" where
  "fill_prefix label n v = replicate (min n (length label)) v @ drop n label"

text \<open>
  The loop \<^verbatim>\<open>for label, source_len in zip(labels, lens)\<close>: it stops at the shorter list and
  leaves the labels it did not reach as they were copied.
\<close>

fun mask_labels :: "int list list \<Rightarrow> nat list \<Rightarrow> int list list" where
  "mask_labels (label # ls) (source_len # ns) =
     fill_prefix label source_len IGNORE_INDEX # mask_labels ls ns"
| "mask_labels ls [] = ls"
| "mask_labels [] ns = []"

definition preprocess ::
  "string list \<Rightarrow> string list \<Rightarrow> tokenizer \<Rightarrow> int list list example" where
  "preprocess sources targets tok =
     (let examples = map (\<lambda>(s, t). s @ t) (zip sources targets);
          examples_tokenized = tokenize_fn examples tok;
          sources_tokenized = tokenize_fn sources tok;
          ids = input_ids examples_tokenized;
          labs = mask_labels ids (input_ids_lens sources_tokenized)
      in \<lparr>input_ids = ids, labels = labs\<rparr>)"

text \<open>The number of non-pad tokens of the source alone, as \<^verbatim>\<open>preprocess\<close> computes it.\<close>

definition source_len :: "tokenizer \<Rightarrow> string \<Rightarrow> nat" where
  "source_len tok s = ne_sum (tokenizer_call tok s) (pad_token_id tok)"

subsection \<open>Collation\<close>

text \<open>
  \<^verbatim>\<open>torch.nn.utils.rnn.pad_sequence(sequences, batch_first=True, padding_value=v)\<close> on
  1-D tensors: a \<open>[B, T]\<close> tensor, \<open>T\<close> the longest length, each row a sequence followed
  by \<open>v\<close>; it rejects an empty list of sequences.
\<close>

definition max_len :: "int list list \<Rightarrow> nat" where
  "max_len sequences = fold (\<lambda>s m. max (length s) m) sequences 0"

definition pad_sequence :: "int list list \<Rightarrow> int \<Rightarrow> error + int list list" where
  "pad_sequence sequences padding_value =
     (if sequences = [] then Inl RuntimeError
      else Inr (map (\<lambda>s. s @ replicate (max_len sequences - length s) padding_value)
                  sequences))"

text \<open>\<^verbatim>\<open>t.ne(v)\<close> on a 2-D tensor.\<close>

definition ne :: "int list list \<Rightarrow> int \<Rightarrow> bool list list" where
  "ne t v = map (map (\<lambda>x. x \<noteq> v)) t"

definition naive_call :: "tokenizer \<Rightarrow> int list example list \<Rightarrow> error + batch" where
  "naive_call tok instances =
     (let ids = map input_ids instances;
          labs = map labels instances
      in case pad_sequence ids (pad_token_id tok) of
           Inl e \<Rightarrow> Inl e
         | Inr ids' \<Rightarrow>
             (case pad_sequence labs IGNORE_INDEX of
                Inl e \<Rightarrow> Inl e
              | Inr labs' \<Rightarrow>
                  Inr \<lparr>input_ids = ids', labels = labs',
                       attention_mask = ne ids' (pad_token_id tok)\<rparr>))"

definition call :: "tokenizer \<Rightarrow> string example list \<Rightarrow> error + batch" where
  "call tok instances =
     (let sources = map input_ids instances;
          targets = map labels instances;
          data_dict = preprocess sources targets tok
      in case pad_sequence (input_ids data_dict) (pad_token_id tok) of
           Inl e \<Rightarrow> Inl e
         | Inr ids' \<Rightarrow>
             (case pad_sequence (labels data_dict) IGNORE_INDEX of
                Inl e \<Rightarrow> Inl e
              | Inr labs' \<Rightarrow>
                  Inr \<lparr>input_ids = ids', labels = labs',
                       attention_mask = ne ids' (pad_token_id tok)\<rparr>))"

text \<open>
  The tokenized examples of a \<^verbatim>\<open>preprocess\<close> result, one dictionary per position
  (\<^verbatim>\<open>dict(input_ids=input_ids[i], labels=labels[i])\<close>, as \<^verbatim>\<open>naive__getitem__\<close> builds it).
\<close>

definition tokenized_examples :: "int list list example \<Rightarrow> int list example list" where
  "tokenized_examples d =
     map (\<lambda>(a, b). \<lparr>input_ids = a, labels = b\<rparr>) (zip (input_ids d) (labels d))"

text \<open>The shape \<open>[B, T]\<close> of a 2-D tensor, and the number of true entries of a mask row.\<close>

definition has_shape :: "'a list list \<Rightarrow> nat \<Rightarrow> nat \<Rightarrow> bool" where
  "has_shape t B T = (length t = B \<and> list_all (\<lambda>row. length row = T) t)"

definition count_true :: "bool list \<Rightarrow> nat" where
  "count_true row = length (filter (\<lambda>b. b) row)"

subsection \<open>JSON values and the Python operations the loader applies to them\<close>

text \<open>
  What \<^verbatim>\<open>json.load\<close> returns: \<^verbatim>\<open>None\<close>, a bool, an int, a str, a list or a dict (the list
  of its items, keys distinct). Numbers that are not integers are left out. A \<open>char\<close> is one
  character of a \<^verbatim>\<open>str\<close>.
\<close>

datatype json =
    JNull
  | JBool bool
  | JInt int
  | JStr string
  | JArr "json list"
  | JObj "(string \<times> json) list"

text \<open>
  The library the loader runs on: the text of each readable file (as text mode returns it,
  line ends already \<^verbatim>\<open>\n\<close>), \<^verbatim>\<open>json.loads\<close> (\<open>None\<close> where it raises), \<^verbatim>\<open>str.strip\<close>, the
  positions \<^verbatim>\<open>random.sample\<close> picks, in order, for a population of \<open>n\<close> and a sample of
  \<open>k\<close> with the generator in the state it is in when the dataset is built, and \<^verbatim>\<open>str\<close> on a
  value that is not a string.
\<close>

record runtime =
  files :: "string \<Rightarrow> string option"
  json_loads :: "string \<Rightarrow> json option"
  str_strip :: "string \<Rightarrow> string"
  sample_order :: "nat \<Rightarrow> nat \<Rightarrow> nat list"
  str_of :: "json \<Rightarrow> string"

record data_args =
  data_path :: string
  data_length :: int

record dataset =
  sources :: "string list"
  targets :: "string list"

text \<open>A list comprehension whose body may raise: the first exception ends it.\<close>

fun map_err :: "('a \<Rightarrow> error + 'b) \<Rightarrow> 'a list \<Rightarrow> error + 'b list" where
  "map_err f [] = Inr []"
| "map_err f (x # xs) =
     (case f x of
        Inl e \<Rightarrow> Inl e
      | Inr y \<Rightarrow> (case map_err f xs of Inl e \<Rightarrow> Inl e | Inr ys \<Rightarrow> Inr (y # ys)))"

text \<open>\<^verbatim>\<open>len(x)\<close>.\<close>

fun py_len :: "json \<Rightarrow> error + nat" where
  "py_len (JStr s) = Inr (length s)"
| "py_len (JArr xs) = Inr (length xs)"
| "py_len (JObj kvs) = Inr (length kvs)"
| "py_len _ = Inl TypeError"

text \<open>\<^verbatim>\<open>x[key]\<close> with a string key: only a dict has one.\<close>

fun py_getitem :: "json \<Rightarrow> string \<Rightarrow> error + json" where
  "py_getitem (JObj kvs) key =
     (case map_of kvs key of None \<Rightarrow> Inl (KeyError key) | Some v \<Rightarrow> Inr v)"
| "py_getitem _ key = Inl TypeError"

fun starts_with :: "string \<Rightarrow> string \<Rightarrow> bool" where
  "starts_with s [] = True"
| "starts_with [] (p # ps) = False"
| "starts_with (c # cs) (p # ps) = (c = p \<and> starts_with cs ps)"

fun str_contains :: "string \<Rightarrow> string \<Rightarrow> bool" where
  "str_contains [] sub = (sub = [])"
| "str_contains (c # cs) sub = (starts_with (c # cs) sub \<or> str_contains cs sub)"

text \<open>
  \<^verbatim>\<open>key in x\<close> with a string key: a key of a dict, a substring of a str, an element of a
  list.
\<close>

fun py_in :: "string \<Rightarrow> json \<Rightarrow> error + bool" where
  "py_in key (JObj kvs) = Inr (key \<in> set (map fst kvs))"
| "py_in key (JStr s) = Inr (str_contains s key)"
| "py_in key (JArr xs) = Inr (JStr key \<in> set xs)"
| "py_in key _ = Inl TypeError"

text \<open>\<^verbatim>\<open>xs[:n]\<close> on a list: a negative \<open>n\<close> counts from the end.\<close>

definition slice_to :: "'a list \<Rightarrow> int \<Rightarrow> 'a list" where
  "slice_to xs n = (if 0 \<le> n then take (nat n) xs else take (nat (int (length xs) + n)) xs)"

text \<open>\<^verbatim>\<open>xs[i]\<close> on a list.\<close>

definition py_index :: "'a list \<Rightarrow> int \<Rightarrow> error + 'a" where
  "py_index xs i =
     (if 0 \<le> i \<and> i < int (length xs) then Inr (xs ! nat i)
      else if i < 0 \<and> - int (length xs) \<le> i then Inr (xs ! nat (int (length xs) + i))
      else Inl IndexError)"

text \<open>\<^verbatim>\<open>str(v)\<close>, as an f-string and \<^verbatim>\<open>format_map\<close> render a value.\<close>

definition py_str :: "runtime \<Rightarrow> json \<Rightarrow> string" where
  "py_str rt v = (case v of JStr s \<Rightarrow> s | _ \<Rightarrow> str_of rt v)"

subsection \<open>Reading the file\<close>

definition jload :: "runtime \<Rightarrow> string \<Rightarrow> error + json" where
  "jload rt f =
     (case files rt f of
        None \<Rightarrow> Inl FileNotFoundError
      | Some text \<Rightarrow>
          (case json_loads rt text of None \<Rightarrow> Inl JSONDecodeError | Some jdict \<Rightarrow> Inr jdict))"

text \<open>\<^verbatim>\<open>f.readlines()\<close>: each line keeps its \<^verbatim>\<open>\n\<close>; the last one may lack it.\<close>

fun readlines :: "string \<Rightarrow> string list" where
  "readlines [] = []"
| "readlines (c # cs) =
     (if c = CHR 0x0A then [c] # readlines cs
      else (case readlines cs of [] \<Rightarrow> [[c]] | l # ls \<Rightarrow> (c # l) # ls))"

text \<open>\<^verbatim>\<open>json.loads(line.strip())\<close>.\<close>

definition loads_line :: "runtime \<Rightarrow> string \<Rightarrow> error + json" where
  "loads_line rt line =
     (case json_loads rt (str_strip rt line) of
        None \<Rightarrow> Inl JSONDecodeError
      | Some v \<Rightarrow> Inr v)"

text \<open>
  Lines 158 to 163: \<^verbatim>\<open>try: jload(data_path)\<close>, and on any exception the file is opened
  again and read line by line.
\<close>

definition read_data :: "runtime \<Rightarrow> string \<Rightarrow> error + json" where
  "read_data rt path =
     (case jload rt path of
        Inr list_data_dict \<Rightarrow> Inr list_data_dict
      | Inl _ \<Rightarrow>
          (case files rt path of
             None \<Rightarrow> Inl FileNotFoundError
           | Some text \<Rightarrow>
               (case map_err (loads_line rt) (readlines text) of
                  Inl e \<Rightarrow> Inl e
                | Inr vs \<Rightarrow> Inr (JArr vs))))"

subsection \<open>Shuffling and truncating\<close>

text \<open>
  \<^verbatim>\<open>random.sample(population, k)\<close>: the population is a sequence (a list, or a str taken
  character by character), and \<open>k\<close> is at most its length.
\<close>

fun as_sequence :: "json \<Rightarrow> json list option" where
  "as_sequence (JArr xs) = Some xs"
| "as_sequence (JStr s) = Some (map (\<lambda>c. JStr [c]) s)"
| "as_sequence _ = None"

definition random_sample :: "runtime \<Rightarrow> json \<Rightarrow> nat \<Rightarrow> error + json list" where
  "random_sample rt population k =
     (case as_sequence population of
        None \<Rightarrow> Inl TypeError
      | Some xs \<Rightarrow>
          if length xs < k then Inl ValueError
          else Inr (map (\<lambda>i. xs ! i) (sample_order rt (length xs) k)))"

text \<open>Lines 165 to 167.\<close>

definition shuffle_truncate :: "runtime \<Rightarrow> data_args \<Rightarrow> json \<Rightarrow> error + json list" where
  "shuffle_truncate rt args list_data_dict =
     (case py_len list_data_dict of
        Inl e \<Rightarrow> Inl e
      | Inr k \<Rightarrow>
          (case random_sample rt list_data_dict k of
             Inl e \<Rightarrow> Inl e
           | Inr shuffled \<Rightarrow> Inr (slice_to shuffled (data_length args))))"

subsection \<open>Normalizing the schema\<close>

definition rename :: "json \<Rightarrow> error + json" where
  "rename data =
     (case py_getitem data ''query'' of
        Inl e \<Rightarrow> Inl e
      | Inr q \<Rightarrow>
          (case py_getitem data ''response'' of
             Inl e \<Rightarrow> Inl e
           | Inr r \<Rightarrow> Inr (JObj [(''instruction'', q), (''output'', r)])))"

text \<open>
  Lines 173 to 180: only the first record is asked for the key \<^verbatim>\<open>instruction\<close>; without it
  every record is rebuilt from \<^verbatim>\<open>query\<close> and \<^verbatim>\<open>response\<close>. (The local \<^verbatim>\<open>get_input\<close> is never
  called.)
\<close>

definition normalize_schema :: "json list \<Rightarrow> error + json list" where
  "normalize_schema list_data_dict =
     (case list_data_dict of
        [] \<Rightarrow> Inl IndexError
      | first # _ \<Rightarrow>
          (case py_in ''instruction'' first of
             Inl e \<Rightarrow> Inl e
           | Inr has \<Rightarrow> if has then Inr list_data_dict else map_err rename list_data_dict))"

subsection \<open>Formatting prompts\<close>

definition prompt_prefix :: string where
  "prompt_prefix = ''<|user|>:'' @ [CHR 0x0A]"

definition prompt_suffix :: string where
  "prompt_suffix =
     [CHR 0x0A] @ ''<|assistant|>: Let'' @ [CHR 0x27] @
     ''s think step by step and solve the problem with code.''"

text \<open>\<^verbatim>\<open>PROMPT_DICT["prompt_input"]\<close>.\<close>

definition prompt_input :: string where
  "prompt_input =
     ''<|user|>:'' @ [CHR 0x0A] @ ''{instruction}'' @ [CHR 0x0A] @ ''<|assistant|>: Let'' @
     [CHR 0x27] @ ''s think step by step and solve the problem with code.''"

text \<open>
  \<^verbatim>\<open>template.format_map(mapping)\<close> for templates of literal text and fields \<^verbatim>\<open>{key}\<close>
  (no \<^verbatim>\<open>{{\<close>, no conversion, no format specification): \<open>format_text\<close> copies text up to
  a \<^verbatim>\<open>{\<close>, \<open>format_field\<close> collects the key up to the \<^verbatim>\<open>}\<close> and looks it up.
\<close>

fun format_text :: "(string \<Rightarrow> error + string) \<Rightarrow> string \<Rightarrow> error + string"
  and format_field :: "(string \<Rightarrow> error + string) \<Rightarrow> string \<Rightarrow> string \<Rightarrow> error + string"
  where
  "format_text lookup [] = Inr []"
| "format_text lookup (c # cs) =
     (if c = CHR ''{'' then format_field lookup [] cs
      else if c = CHR ''}'' then Inl ValueError
      else (case format_text lookup cs of Inl e \<Rightarrow> Inl e | Inr out \<Rightarrow> Inr (c # out)))"
| "format_field lookup key [] = Inl ValueError"
| "format_field lookup key (c # cs) =
     (if c = CHR ''}'' then
        (case lookup (rev key) of
           Inl e \<Rightarrow> Inl e
         | Inr v \<Rightarrow> (case format_text lookup cs of Inl e \<Rightarrow> Inl e | Inr out \<Rightarrow> Inr (v @ out)))
      else format_field lookup (c # key) cs)"

definition lookup_str :: "runtime \<Rightarrow> json \<Rightarrow> string \<Rightarrow> error + string" where
  "lookup_str rt mapping key =
     (case py_getitem mapping key of Inl e \<Rightarrow> Inl e | Inr v \<Rightarrow> Inr (py_str rt v))"

definition format_map :: "runtime \<Rightarrow> string \<Rightarrow> json \<Rightarrow> error + string" where
  "format_map rt template mapping = format_text (lookup_str rt mapping) template"

text \<open>The body of the loop of lines 187 to 191.\<close>

definition source_of :: "runtime \<Rightarrow> json \<Rightarrow> error + string" where
  "source_of rt example =
     (case py_getitem example ''instruction'' of
        Inl e \<Rightarrow> Inl e
      | Inr v \<Rightarrow> if v = JStr [] then Inr [] else format_map rt prompt_input example)"

text \<open>\<^verbatim>\<open>f"{example['output']}{tokenizer.eos_token}"\<close>.\<close>

definition target_of :: "runtime \<Rightarrow> tokenizer \<Rightarrow> json \<Rightarrow> error + string" where
  "target_of rt tok example =
     (case py_getitem example ''output'' of
        Inl e \<Rightarrow> Inl e
      | Inr v \<Rightarrow> Inr (py_str rt v @ eos_token tok))"

text \<open>
  Lines 171 to 195: the comprehension of lines 182 to 185 (its list is thrown away, its
  exceptions are not), the loop over the sources, the targets.
\<close>

definition format_examples :: "runtime \<Rightarrow> tokenizer \<Rightarrow> json list \<Rightarrow> error + dataset" where
  "format_examples rt tok list_data_dict =
     (case map_err (format_map rt prompt_input) list_data_dict of
        Inl e \<Rightarrow> Inl e
      | Inr _ \<Rightarrow>
          (case map_err (source_of rt) list_data_dict of
             Inl e \<Rightarrow> Inl e
           | Inr srcs \<Rightarrow>
               (case map_err (target_of rt tok) list_data_dict of
                  Inl e \<Rightarrow> Inl e
                | Inr tgts \<Rightarrow> Inr \<lparr>sources = srcs, targets = tgts\<rparr>)))"

subsection \<open>The dataset\<close>

text \<open>The records the loader holds when it formats them: lines 152 to 180.\<close>

definition load_records :: "runtime \<Rightarrow> data_args \<Rightarrow> error + json list" where
  "load_records rt args =
     (case read_data rt (data_path args) of
        Inl e \<Rightarrow> Inl e
      | Inr parsed \<Rightarrow>
          (case shuffle_truncate rt args parsed of
             Inl e \<Rightarrow> Inl e
           | Inr retained \<Rightarrow> normalize_schema retained))"

definition SupervisedDataset_init :: "runtime \<Rightarrow> data_args \<Rightarrow> tokenizer \<Rightarrow> error + dataset" where
  "SupervisedDataset_init rt args tok =
     (case load_records rt args of
        Inl e \<Rightarrow> Inl e
      | Inr list_data_dict \<Rightarrow> format_examples rt tok list_data_dict)"

definition len :: "dataset \<Rightarrow> nat" where
  "len self = length (sources self)"

definition getitem :: "dataset \<Rightarrow> int \<Rightarrow> error + string example" where
  "getitem self i =
     (case py_index (sources self) i of
        Inl e \<Rightarrow> Inl e
      | Inr s \<Rightarrow>
          (case py_index (targets self) i of
             Inl e \<Rightarrow> Inl e
           | Inr t \<Rightarrow> Inr \<lparr>input_ids = s, labels = t\<rparr>))"

text \<open>
  The items of one batch, as the data loader fetches them for a list of indices:
  \<^verbatim>\<open>[dataset[i] for i in indices]\<close>.
\<close>

definition fetch :: "dataset \<Rightarrow> int list \<Rightarrow> error + string example list" where
  "fetch self indices = map_err (getitem self) indices"

subsection \<open>The generator of the module random\<close>

text \<open>
  The generator is global state of type \<open>'g\<close>. \<^verbatim>\<open>random.seed(a)\<close> sets it to a state that
  \<open>a\<close> alone determines; \<^verbatim>\<open>random.sample(population, k)\<close> on a population of \<open>n\<close> picks \<open>k\<close>
  positions and leaves the generator in a new state; the library calls of lines 268 to 304
  (loading the model and the tokenizer, adding tokens) run between the seeding and the
  construction of the dataset and may move the generator.
\<close>

record 'g generator =
  seeded :: "int \<Rightarrow> 'g"
  sampled :: "'g \<Rightarrow> nat \<Rightarrow> nat \<Rightarrow> nat list \<times> 'g"
  model_setup :: "'g \<Rightarrow> 'g"

text \<open>\<^verbatim>\<open>random.seed(a)\<close> as a step on the state: the state before is lost.\<close>

definition random_seed :: "'g generator \<Rightarrow> int \<Rightarrow> 'g \<Rightarrow> 'g" where
  "random_seed gen a g = seeded gen a"

text \<open>Line 20 of \<^verbatim>\<open>seed_torch\<close>; its other lines seed torch, which the loader does not use.\<close>

definition seed_torch :: "'g generator \<Rightarrow> int \<Rightarrow> 'g \<Rightarrow> 'g" where
  "seed_torch gen seed g = random_seed gen seed g"

text \<open>The runtime the constructor sees when the generator is in state \<open>g\<close>.\<close>

definition at_state :: "runtime \<Rightarrow> 'g generator \<Rightarrow> 'g \<Rightarrow> runtime" where
  "at_state rt gen g = rt\<lparr>sample_order := (\<lambda>n k. fst (sampled gen g n k))\<rparr>"

text \<open>
  The state the constructor leaves: that after the one call of \<^verbatim>\<open>random.sample\<close> of line
  165, when the constructor gets that far.
\<close>

definition state_after_init :: "runtime \<Rightarrow> 'g generator \<Rightarrow> 'g \<Rightarrow> data_args \<Rightarrow> 'g" where
  "state_after_init rt gen g args =
     (case read_data rt (data_path args) of
        Inl _ \<Rightarrow> g
      | Inr list_data_dict \<Rightarrow>
          (case py_len list_data_dict of
             Inl _ \<Rightarrow> g
           | Inr k \<Rightarrow>
               (case as_sequence list_data_dict of
                  None \<Rightarrow> g
                | Some xs \<Rightarrow> if length xs < k then g else snd (sampled gen g (length xs) k))))"

text \<open>
  The state of the generator when \<^verbatim>\<open>train\<close> constructs the dataset, from the state \<open>g0\<close> the
  process starts in: line 16 seeds it when the module is loaded, lines 263 and 264 seed it
  again with \<open>seed = 42\<close>, lines 268 to 304 follow.
\<close>

definition construction_state :: "'g generator \<Rightarrow> 'g \<Rightarrow> 'g" where
  "construction_state gen g0 =
     (let g1 = random_seed gen 42 g0;
          seed = 42;
          g2 = random_seed gen seed g1;
          g3 = seed_torch gen seed g2
      in model_setup gen g3)"

text \<open>The dataset \<^verbatim>\<open>train\<close> constructs (line 305), and the state of the generator after.\<close>

definition train_dataset ::
  "runtime \<Rightarrow> 'g generator \<Rightarrow> 'g \<Rightarrow> data_args \<Rightarrow> tokenizer \<Rightarrow> (error + dataset) \<times> 'g" where
  "train_dataset rt gen g0 args tok =
     (let g = construction_state gen g0
      in (SupervisedDataset_init (at_state rt gen g) args tok, state_after_init rt gen g args))"

section \<open>Concrete inputs\<close>

text \<open>A tokenizer with one token per character (its code), pad id 0, at most 8 tokens.\<close>

definition demo_tok :: tokenizer where
  "demo_tok =
     \<lparr>encode = (\<lambda>text n. take n (map (\<lambda>c. int (of_char c)) text)),
      model_max_length = 8, pad_token_id = 0, eos_token = ''</s>''\<rparr>"

text \<open>Two tokenized examples of 5 and 8 tokens; the first begins with the pad id 0.\<close>

definition ex5 :: "int list example" where
  "ex5 = \<lparr>input_ids = [0, 11, 12, 13, 14], labels = [- 100, 11, 12, 13, 14]\<rparr>"

definition ex8 :: "int list example" where
  "ex8 = \<lparr>input_ids = [21, 22, 23, 24, 25, 26, 27, 28],
           labels = [- 100, - 100, 23, 24, 25, 26, 27, 28]\<rparr>"

text \<open>
  A runtime with five files: one JSON object on one line, two objects on two lines, a line
  that is not JSON, an array of three records in the other schema, and the empty array.
  \<open>demo_loads\<close> lists what \<^verbatim>\<open>json.loads\<close> returns on the texts that are JSON; it raises on
  every other text that is read here. \<^verbatim>\<open>random.sample\<close> reverses the population.
\<close>

definition record_text :: string where
  \<open>record_text = ''{"instruction": "Add 1 and 2.", "output": "3"}''\<close>

definition record_value :: json where
  "record_value = JObj [(''instruction'', JStr ''Add 1 and 2.''), (''output'', JStr ''3'')]"

definition other_text :: string where
  \<open>other_text = ''{"instruction": "", "output": "ok"}''\<close>

definition other_value :: json where
  "other_value = JObj [(''instruction'', JStr ''''), (''output'', JStr ''ok'')]"

definition array_text :: string where
  \<open>array_text =
     ''[{"query": "q1", "response": "r1"}, '' @ ''{"query": "q2", "response": "r2"}, '' @
     ''{"query": "q3", "response": "r3"}]''\<close>

definition array_records :: "json list" where
  "array_records =
     [JObj [(''query'', JStr ''q1''), (''response'', JStr ''r1'')],
      JObj [(''query'', JStr ''q2''), (''response'', JStr ''r2'')],
      JObj [(''query'', JStr ''q3''), (''response'', JStr ''r3'')]]"

definition one_line_text :: string where
  "one_line_text = record_text @ [CHR 0x0A]"

definition two_lines_text :: string where
  "two_lines_text = record_text @ [CHR 0x0A] @ other_text @ [CHR 0x0A]"

definition bad_lines_text :: string where
  "bad_lines_text = record_text @ [CHR 0x0A] @ ''oops'' @ [CHR 0x0A]"

definition demo_files :: "(string \<times> string) list" where
  "demo_files =
     [(''one.jsonl'', one_line_text),
      (''two.jsonl'', two_lines_text),
      (''bad.jsonl'', bad_lines_text),
      (''array.json'', array_text),
      (''empty.json'', ''[]'')]"

definition demo_loads :: "(string \<times> json) list" where
  "demo_loads =
     [(record_text, record_value),
      (one_line_text, record_value),
      (other_text, other_value),
      (array_text, JArr array_records),
      (''[]'', JArr [])]"

text \<open>
  \<^verbatim>\<open>str.strip\<close> on a text whose characters are all below U+0100: the white space there is
  U+0009 to U+000D, U+001C to U+0020, U+0085 and U+00A0.
\<close>

definition is_space :: "char \<Rightarrow> bool" where
  "is_space c =
     (let n = (of_char c :: nat)
      in (9 \<le> n \<and> n \<le> 13) \<or> (28 \<le> n \<and> n \<le> 32) \<or> n = 133 \<or> n = 160)"

definition demo_strip :: "string \<Rightarrow> string" where
  "demo_strip s = rev (dropWhile is_space (rev (dropWhile is_space s)))"

definition demo_rt :: runtime where
  "demo_rt =
     \<lparr>files = map_of demo_files,
      json_loads = map_of demo_loads,
      str_strip = demo_strip,
      sample_order = (\<lambda>n k. rev [0..<k]),
      str_of =
        (\<lambda>v. case v of
               JNull \<Rightarrow> ''None''
             | JBool b \<Rightarrow> (if b then ''True'' else ''False'')
             | _ \<Rightarrow> [])\<rparr>"

text \<open>
  A generator whose state is a counter: seeding with \<open>a\<close> sets it to \<open>|a|\<close>, a sample
  reverses the population in an even state and keeps its order in an odd one, and moves
  the counter on; the library calls between leave it alone.
\<close>

definition demo_gen :: "nat generator" where
  "demo_gen =
     \<lparr>seeded = (\<lambda>a. nat \<bar>a\<bar>),
      sampled = (\<lambda>g n k. (if even g then rev [0..<k] else [0..<k], Suc g)),
      model_setup = (\<lambda>g. g)\<rparr>"

text \<open>A record of the other schema whose response is null.\<close>

definition null_response_record :: json where
  "null_response_record = JObj [(''query'', JStr ''q''), (''response'', JNull)]"

section \<open>Properties\<close>

subsection \<open>preprocess\<close>

lemma input_ids_preprocess:
  "input_ids (preprocess ss ts tok) =
     map (\<lambda>(s, t). encode tok (s @ t) (model_max_length tok)) (zip ss ts)"
  by (simp add: preprocess_def tokenize_fn_def tokenizer_call_def Let_def case_prod_unfold)

lemma mask_labels_nth:
  "i < length ls \<Longrightarrow> i < length ns \<Longrightarrow>
     mask_labels ls ns ! i = fill_prefix (ls ! i) (ns ! i) IGNORE_INDEX"
proof (induction ls ns arbitrary: i rule: mask_labels.induct)
  case (1 label ls source_len ns)
  then show ?case by (cases i) simp_all
qed simp_all

lemma length_mask_labels: "length (mask_labels ls ns) = length ls"
  by (induction ls ns rule: mask_labels.induct) simp_all

lemma labels_preprocess_nth:
  assumes "i < length ss" and "i < length ts"
  shows "labels (preprocess ss ts tok) ! i =
           fill_prefix (encode tok (ss ! i @ ts ! i) (model_max_length tok))
             (source_len tok (ss ! i)) IGNORE_INDEX"
  using assms
  by (simp add: preprocess_def tokenize_fn_def tokenizer_call_def Let_def case_prod_unfold
      mask_labels_nth source_len_def)

lemma fill_prefix_nth:
  "j < length label \<Longrightarrow> fill_prefix label n v ! j = (if j < n then v else label ! j)"
  by (auto simp: fill_prefix_def nth_append min_def)

lemma length_fill_prefix: "length (fill_prefix label n v) = length label"
  by (simp add: fill_prefix_def)

lemma length_labels_preprocess:
  "length (labels (preprocess ss ts tok)) = length (input_ids (preprocess ss ts tok))"
  by (simp add: preprocess_def tokenize_fn_def Let_def length_mask_labels)

lemma length_input_ids_preprocess:
  "length (input_ids (preprocess ss ts tok)) = min (length ss) (length ts)"
  by (simp add: input_ids_preprocess)

lemma input_ids_preprocess_nth:
  assumes "i < length ss" and "i < length ts"
  shows "input_ids (preprocess ss ts tok) ! i = encode tok (ss ! i @ ts ! i) (model_max_length tok)"
  using assms by (simp add: input_ids_preprocess)

text \<open>
  Claim C1. For source and target lists \<open>ss\<close> and \<open>ts\<close>, \<^verbatim>\<open>preprocess\<close> produces one example
  per pair. In example \<open>i\<close> the input ids are the tokens of source and target joined, the
  labels are as long as the input ids, every label before position \<open>source_len\<close> is
  \<open>IGNORE_INDEX\<close> (which is \<open>-100\<close>) and every other label is the input id at its position.
  \<open>source_len\<close> is the number of tokens other than the pad id in the tokens of the source
  alone. (When \<open>source_len\<close> is more than the length, every label is \<open>IGNORE_INDEX\<close>.)
\<close>

theorem preprocess_masks_source_span:
  assumes "i < length ss" and "i < length ts"
  shows "length (input_ids (preprocess ss ts tok)) = min (length ss) (length ts) \<and>
         length (labels (preprocess ss ts tok)) = min (length ss) (length ts) \<and>
         input_ids (preprocess ss ts tok) ! i =
           encode tok (ss ! i @ ts ! i) (model_max_length tok) \<and>
         length (labels (preprocess ss ts tok) ! i) =
           length (input_ids (preprocess ss ts tok) ! i) \<and>
         (\<forall>j < length (labels (preprocess ss ts tok) ! i).
            labels (preprocess ss ts tok) ! i ! j =
              (if j < source_len tok (ss ! i) then IGNORE_INDEX
               else input_ids (preprocess ss ts tok) ! i ! j)) \<and>
         source_len tok (ss ! i) =
           length (filter (\<lambda>t. t \<noteq> pad_token_id tok)
                     (encode tok (ss ! i) (model_max_length tok))) \<and>
         IGNORE_INDEX = - 100"
proof -
  let ?ids = "input_ids (preprocess ss ts tok) ! i"
  let ?labs = "labels (preprocess ss ts tok) ! i"
  have ids: "?ids = encode tok (ss ! i @ ts ! i) (model_max_length tok)"
    using assms by (rule input_ids_preprocess_nth)
  have labs: "?labs = fill_prefix ?ids (source_len tok (ss ! i)) IGNORE_INDEX"
    using assms by (simp add: labels_preprocess_nth ids)
  have len: "length ?labs = length ?ids"
    by (simp add: labs length_fill_prefix)
  have pointwise: "\<forall>j < length ?labs.
      ?labs ! j = (if j < source_len tok (ss ! i) then IGNORE_INDEX else ?ids ! j)"
    using len by (simp add: labs fill_prefix_nth)
  have count: "source_len tok (ss ! i) =
      length (filter (\<lambda>t. t \<noteq> pad_token_id tok) (encode tok (ss ! i) (model_max_length tok)))"
    by (simp add: source_len_def ne_sum_def tokenizer_call_def)
  show ?thesis
    using ids len pointwise count
    by (simp add: length_input_ids_preprocess length_labels_preprocess IGNORE_INDEX_def)
qed

theorem preprocess_masks_source_span_witness:
  "labels (preprocess [''ab''] [''cd''] demo_tok) ! 0 ! 1 = - 100 \<and>
   labels (preprocess [''ab''] [''cd''] demo_tok) ! 0 ! 2 = 99 \<and>
   input_ids (preprocess [''ab''] [''cd''] demo_tok) ! 0 = [97, 98, 99, 100] \<and>
   length (labels (preprocess [''ab''] [''cd''] demo_tok) ! 0) = 4 \<and>
   source_len demo_tok ''ab'' = 2"
proof -
  have i: "(0::nat) < length [''ab'']" and i': "(0::nat) < length [''cd'']"
    by simp_all
  have enc: "encode demo_tok ''abcd'' (model_max_length demo_tok) = [97, 98, 99, 100]"
    and enc': "encode demo_tok ''ab'' (model_max_length demo_tok) = [97, 98]"
    and pad: "pad_token_id demo_tok = 0"
    by (simp_all add: demo_tok_def)
  from preprocess_masks_source_span [OF i i', of demo_tok]
  show ?thesis
    by (simp add: enc enc' pad)
qed

subsection \<open>Collation\<close>

lemma fold_max_ge:
  "a \<le> fold (\<lambda>s m. max (length s) m) seqs a \<and>
   (\<forall>s \<in> set seqs. length s \<le> fold (\<lambda>s m. max (length s) m) seqs a)"
proof (induction seqs arbitrary: a)
  case Nil
  show ?case by simp
next
  case (Cons s seqs)
  from Cons.IH [of "max (length s) a"] show ?case by auto
qed

lemma fold_max_mem:
  "fold (\<lambda>s m. max (length s) m) seqs a \<in> insert a (set (map length seqs))"
proof (induction seqs arbitrary: a)
  case Nil
  show ?case by simp
next
  case (Cons s seqs)
  from Cons.IH [of "max (length s) a"] show ?case by (auto simp: max_def)
qed

lemma max_len_Max:
  assumes "seqs \<noteq> []"
  shows "max_len seqs = Max (set (map length seqs))"
proof -
  have ge: "\<forall>s \<in> set seqs. length s \<le> max_len seqs"
    using fold_max_ge [of 0 seqs] by (simp add: max_len_def)
  obtain s where s: "s \<in> set seqs"
    using assms by (cases seqs) auto
  have "max_len seqs \<in> set (map length seqs)"
  proof (cases "max_len seqs = 0")
    case True
    with ge s have "length s = max_len seqs" by auto
    with s show ?thesis by (metis image_eqI set_map)
  next
    case False
    with fold_max_mem [of seqs 0] show ?thesis by (simp add: max_len_def)
  qed
  moreover have "\<forall>n \<in> set (map length seqs). n \<le> max_len seqs"
    using ge by auto
  ultimately show ?thesis
    by (intro Max_eqI [symmetric]) auto
qed

lemma pad_sequence_Max:
  assumes "seqs \<noteq> []"
  shows "pad_sequence seqs v =
           Inr (map (\<lambda>s. s @ replicate (Max (set (map length seqs)) - length s) v) seqs)"
  using assms by (simp add: pad_sequence_def max_len_Max)

lemma has_shape_padded:
  "has_shape (map (\<lambda>s. s @ replicate (Max (set (map length seqs)) - length s) v) seqs)
     (length seqs) (Max (set (map length seqs)))"
  by (auto simp: has_shape_def list_all_iff)

lemma has_shape_ne: "has_shape t B T \<Longrightarrow> has_shape (ne t v) B T"
  by (auto simp: has_shape_def ne_def list_all_iff)

lemma pad_sequence_same_length:
  assumes "seqs \<noteq> []" and "\<forall>s \<in> set seqs. length s = n"
  shows "pad_sequence seqs v = Inr seqs"
proof -
  have "set (map length seqs) = {n}"
    using assms by (cases seqs) auto
  then have "Max (set (map length seqs)) = n"
    by simp
  then have "map (\<lambda>s. s @ replicate (Max (set (map length seqs)) - length s) v) seqs = seqs"
    using assms(2) by (simp add: map_idI)
  then show ?thesis
    using assms(1) by (simp add: pad_sequence_Max)
qed

lemma map_input_ids_tokenized_examples:
  assumes "length (labels d) = length (input_ids d)"
  shows "map input_ids (tokenized_examples d) = input_ids d"
proof -
  have "map input_ids (tokenized_examples d) = map fst (zip (input_ids d) (labels d))"
    by (simp add: tokenized_examples_def case_prod_unfold)
  with assms show ?thesis by simp
qed

lemma map_labels_tokenized_examples:
  assumes "length (labels d) = length (input_ids d)"
  shows "map labels (tokenized_examples d) = labels d"
proof -
  have "map labels (tokenized_examples d) = map snd (zip (input_ids d) (labels d))"
    by (simp add: tokenized_examples_def case_prod_unfold)
  with assms show ?thesis by simp
qed

lemma Max_length_labels_preprocess:
  "map length (labels (preprocess ss ts tok)) = map length (input_ids (preprocess ss ts tok))"
proof (rule nth_equalityI)
  show "length (map length (labels (preprocess ss ts tok))) =
        length (map length (input_ids (preprocess ss ts tok)))"
    by (simp add: length_labels_preprocess)
next
  fix i
  assume "i < length (map length (labels (preprocess ss ts tok)))"
  then have i: "i < length ss" "i < length ts"
    by (simp_all add: length_labels_preprocess length_input_ids_preprocess)
  then show "map length (labels (preprocess ss ts tok)) ! i =
             map length (input_ids (preprocess ss ts tok)) ! i"
    by (simp add: length_labels_preprocess length_input_ids_preprocess
        labels_preprocess_nth input_ids_preprocess_nth length_fill_prefix)
qed

text \<open>
  Claim C2. For every batch of dataset items (pairs of a source string and a target string,
  as \<^verbatim>\<open>__getitem__\<close> returns them), \<^verbatim>\<open>__call__\<close> gives exactly what \<^verbatim>\<open>naive__call__\<close> gives on
  the tokenized examples that \<^verbatim>\<open>preprocess\<close> makes of the sources and targets: the same
  input ids, labels and attention mask, or the same exception. The second part says it of
  the items fetched from a dataset for a list of indices.
\<close>

theorem call_refines_preprocess_then_naive_call:
  "call tok instances =
     naive_call tok
       (tokenized_examples (preprocess (map input_ids instances) (map labels instances) tok)) \<and>
   (case fetch self indices of Inl e \<Rightarrow> Inl e | Inr items \<Rightarrow> call tok items) =
     (case fetch self indices of
        Inl e \<Rightarrow> Inl e
      | Inr items \<Rightarrow>
          naive_call tok
            (tokenized_examples (preprocess (map input_ids items) (map labels items) tok)))"
proof -
  have eq: "call tok items =
      naive_call tok
        (tokenized_examples (preprocess (map input_ids items) (map labels items) tok))"
    for items
  proof -
    let ?d = "preprocess (map input_ids items) (map labels items) tok"
    have len: "length (labels ?d) = length (input_ids ?d)"
      by (rule length_labels_preprocess)
    have "map input_ids (tokenized_examples ?d) = input_ids ?d"
      and "map labels (tokenized_examples ?d) = labels ?d"
      using len
      by (simp_all add: map_input_ids_tokenized_examples map_labels_tokenized_examples)
    then show ?thesis
      by (simp add: call_def naive_call_def Let_def)
  qed
  show ?thesis
    by (simp add: eq split: sum.splits)
qed

text \<open>
  Claim C3. On a batch that is not empty the collator returns a batch: every row of
  \<open>input_ids\<close> is a sequence followed by pad ids up to the longest sequence \<open>T\<close>, every row
  of \<open>labels\<close> is a label sequence followed by \<open>IGNORE_INDEX\<close> up to the longest label
  sequence \<open>T'\<close>, the tensors have the shapes \<open>[B, T]\<close> and \<open>[B, T']\<close>, the attention mask is
  \<open>input_ids \<noteq> pad\<close> entry by entry, and \<open>T' = T\<close> when the labels of every example are as
  long as its input ids. The first part is \<^verbatim>\<open>naive__call__\<close> on tokenized examples, the
  second \<^verbatim>\<open>__call__\<close> on dataset items, where the sequences are those of \<^verbatim>\<open>preprocess\<close>.
\<close>

theorem collator_pads_to_batch_max:
  assumes "instances \<noteq> []" and "items \<noteq> []"
  shows "(\<exists>out T T'.
            naive_call tok instances = Inr out \<and>
            T = Max (set (map (\<lambda>x. length (input_ids x)) instances)) \<and>
            T' = Max (set (map (\<lambda>x. length (labels x)) instances)) \<and>
            input_ids out =
              map (\<lambda>x. input_ids x @ replicate (T - length (input_ids x)) (pad_token_id tok))
                instances \<and>
            labels out =
              map (\<lambda>x. labels x @ replicate (T' - length (labels x)) IGNORE_INDEX) instances \<and>
            attention_mask out = map (map (\<lambda>v. v \<noteq> pad_token_id tok)) (input_ids out) \<and>
            has_shape (input_ids out) (length instances) T \<and>
            has_shape (labels out) (length instances) T' \<and>
            has_shape (attention_mask out) (length instances) T \<and>
            ((\<forall>x \<in> set instances. length (labels x) = length (input_ids x)) \<longrightarrow> T' = T)) \<and>
         (\<exists>out T d.
            call tok items = Inr out \<and>
            d = preprocess (map input_ids items) (map labels items) tok \<and>
            T = Max (set (map length (input_ids d))) \<and>
            input_ids out =
              map (\<lambda>s. s @ replicate (T - length s) (pad_token_id tok)) (input_ids d) \<and>
            labels out = map (\<lambda>s. s @ replicate (T - length s) IGNORE_INDEX) (labels d) \<and>
            attention_mask out = map (map (\<lambda>v. v \<noteq> pad_token_id tok)) (input_ids out) \<and>
            has_shape (input_ids out) (length items) T \<and>
            has_shape (labels out) (length items) T \<and>
            has_shape (attention_mask out) (length items) T)"
    (is "?A \<and> ?B")
proof
  let ?ids = "map input_ids instances" and ?labs = "map labels instances"
  let ?T = "Max (set (map length ?ids))" and ?T' = "Max (set (map length ?labs))"
  let ?I = "map (\<lambda>s. s @ replicate (?T - length s) (pad_token_id tok)) ?ids"
  let ?L = "map (\<lambda>s. s @ replicate (?T' - length s) IGNORE_INDEX) ?labs"
  let ?out = "\<lparr>input_ids = ?I, labels = ?L, attention_mask = ne ?I (pad_token_id tok)\<rparr>"
  have ne: "?ids \<noteq> []" "?labs \<noteq> []"
    using assms(1) by simp_all
  have run: "naive_call tok instances = Inr ?out"
    by (simp add: naive_call_def Let_def pad_sequence_Max [OF ne(1)] pad_sequence_Max [OF ne(2)])
  have shI: "has_shape ?I (length instances) ?T"
    using has_shape_padded [of ?ids "pad_token_id tok"] by simp
  have shL: "has_shape ?L (length instances) ?T'"
    using has_shape_padded [of ?labs IGNORE_INDEX] by simp
  have same: "(\<forall>x \<in> set instances. length (labels x) = length (input_ids x)) \<longrightarrow> ?T' = ?T"
  proof
    assume "\<forall>x \<in> set instances. length (labels x) = length (input_ids x)"
    then have "map length ?labs = map length ?ids" by simp
    then show "?T' = ?T" by simp
  qed
  show ?A
    apply (rule exI [of _ ?out], rule exI [of _ ?T], rule exI [of _ ?T'])
    using run shI shL same has_shape_ne [OF shI, of "pad_token_id tok"]
    by (simp add: comp_def ne_def)
next
  let ?d = "preprocess (map input_ids items) (map labels items) tok"
  let ?T = "Max (set (map length (input_ids ?d)))"
  let ?I = "map (\<lambda>s. s @ replicate (?T - length s) (pad_token_id tok)) (input_ids ?d)"
  let ?L = "map (\<lambda>s. s @ replicate (?T - length s) IGNORE_INDEX) (labels ?d)"
  let ?out = "\<lparr>input_ids = ?I, labels = ?L, attention_mask = ne ?I (pad_token_id tok)\<rparr>"
  have n: "length (input_ids ?d) = length items"
    by (simp add: length_input_ids_preprocess)
  have ne: "input_ids ?d \<noteq> []" "labels ?d \<noteq> []"
    using assms(2) n length_labels_preprocess [of "map input_ids items" "map labels items" tok]
    by auto
  have lens: "map length (labels ?d) = map length (input_ids ?d)"
    by (rule Max_length_labels_preprocess)
  have run: "call tok items = Inr ?out"
    by (simp add: call_def Let_def pad_sequence_Max [OF ne(1)] pad_sequence_Max [OF ne(2)] lens)
  have shI: "has_shape ?I (length items) ?T"
    using has_shape_padded [of "input_ids ?d" "pad_token_id tok"] n by simp
  have shL: "has_shape ?L (length items) ?T"
    using has_shape_padded [of "labels ?d" IGNORE_INDEX] n lens
      length_labels_preprocess [of "map input_ids items" "map labels items" tok]
    by simp
  show ?B
    apply (rule exI [of _ ?out], rule exI [of _ ?T], rule exI [of _ ?d])
    using run shI shL has_shape_ne [OF shI, of "pad_token_id tok"]
    by (simp add: ne_def)
qed

theorem collator_pads_to_batch_max_witness:
  "[ex5, ex8] \<noteq> [] \<and>
   [\<lparr>input_ids = ''ab'', labels = ''c''\<rparr>] \<noteq> [] \<and>
   (\<exists>out. naive_call demo_tok [ex5, ex8] = Inr out \<and>
      input_ids out = [[0, 11, 12, 13, 14, 0, 0, 0], [21, 22, 23, 24, 25, 26, 27, 28]] \<and>
      labels out =
        [[- 100, 11, 12, 13, 14, - 100, - 100, - 100], [- 100, - 100, 23, 24, 25, 26, 27, 28]] \<and>
      has_shape (input_ids out) 2 8 \<and> has_shape (labels out) 2 8) \<and>
   (\<exists>out. call demo_tok [\<lparr>input_ids = ''ab'', labels = ''c''\<rparr>] = Inr out \<and>
      has_shape (input_ids out) 1 3)"
proof -
  have a: "[ex5, ex8] \<noteq> []" and b: "[\<lparr>input_ids = ''ab'', labels = ''c''\<rparr>] \<noteq> []"
    by simp_all
  have enc: "encode demo_tok ''abc'' (model_max_length demo_tok) = [97, 98, 99]"
    by (simp add: demo_tok_def)
  from collator_pads_to_batch_max [OF a b, of demo_tok]
  show ?thesis
    by (auto simp: ex5_def ex8_def IGNORE_INDEX_def demo_tok_def input_ids_preprocess
        has_shape_def)
qed

text \<open>
  Claim C8. When all input id sequences of a batch have one length and all label sequences
  have one length, padding changes nothing: the rows of the collated \<open>input_ids\<close> and
  \<open>labels\<close> are the sequences of the batch, unchanged and in order. (The empty batch has no
  row; \<^verbatim>\<open>pad_sequence\<close> rejects it.)
\<close>

theorem collation_noop_on_equal_lengths:
  assumes "\<forall>x \<in> set instances. length (input_ids x) = n"
    and "\<forall>x \<in> set instances. length (labels x) = m"
  shows "naive_call tok instances =
           (if instances = [] then Inl RuntimeError
            else Inr \<lparr>input_ids = map input_ids instances, labels = map labels instances,
                      attention_mask =
                        map (\<lambda>x. map (\<lambda>v. v \<noteq> pad_token_id tok) (input_ids x)) instances\<rparr>)"
proof (cases "instances = []")
  case True
  then show ?thesis
    by (simp add: naive_call_def pad_sequence_def)
next
  case False
  then have ne: "map input_ids instances \<noteq> []" "map labels instances \<noteq> []"
    by simp_all
  have "pad_sequence (map input_ids instances) (pad_token_id tok) = Inr (map input_ids instances)"
    using assms(1) by (intro pad_sequence_same_length [OF ne(1), of n]) simp
  moreover have "pad_sequence (map labels instances) IGNORE_INDEX = Inr (map labels instances)"
    using assms(2) by (intro pad_sequence_same_length [OF ne(2), of m]) simp
  ultimately show ?thesis
    using False by (simp add: naive_call_def Let_def ne_def comp_def)
qed

theorem collation_noop_on_equal_lengths_witness:
  "naive_call demo_tok [ex8, ex8] =
     Inr \<lparr>input_ids = [input_ids ex8, input_ids ex8], labels = [labels ex8, labels ex8],
          attention_mask = [replicate 8 True, replicate 8 True]\<rparr>"
proof -
  have a: "\<forall>x \<in> set [ex8, ex8]. length (input_ids x) = 8"
    and b: "\<forall>x \<in> set [ex8, ex8]. length (labels x) = 8"
    by (simp_all add: ex8_def)
  from collation_noop_on_equal_lengths [OF a b, of demo_tok]
  show ?thesis
    by (simp add: ex8_def demo_tok_def numeral_eq_Suc)
qed

lemma count_true_ne:
  "count_true (map (\<lambda>v. v \<noteq> p) s @ replicate k False) = length (filter (\<lambda>v. v \<noteq> p) s)"
  by (simp add: count_true_def filter_map comp_def)

text \<open>
  Claim C9, amended. For two tokenized examples of 5 and 8 tokens (labels as long as the
  input ids) the collated \<open>input_ids\<close>, \<open>labels\<close> and \<open>attention_mask\<close> have the shape
  \<open>[2, 8]\<close>, and the first row of the attention mask has as many true entries as the first
  example has tokens other than the pad id: 5 when none of its tokens is the pad id.
\<close>

theorem collate_lengths_5_and_8:
  assumes "length (input_ids a) = 5" and "length (input_ids b) = 8"
    and "length (labels a) = 5" and "length (labels b) = 8"
  shows "\<exists>out. naive_call tok [a, b] = Inr out \<and>
           has_shape (input_ids out) 2 8 \<and>
           has_shape (labels out) 2 8 \<and>
           has_shape (attention_mask out) 2 8 \<and>
           count_true (attention_mask out ! 0) =
             length (filter (\<lambda>v. v \<noteq> pad_token_id tok) (input_ids a)) \<and>
           (pad_token_id tok \<notin> set (input_ids a) \<longrightarrow> count_true (attention_mask out ! 0) = 5)"
proof -
  have full: "pad_token_id tok \<notin> set (input_ids a) \<longrightarrow>
      length (filter (\<lambda>v. v \<noteq> pad_token_id tok) (input_ids a)) = 5"
  proof
    assume "pad_token_id tok \<notin> set (input_ids a)"
    then have "filter (\<lambda>v. v \<noteq> pad_token_id tok) (input_ids a) = input_ids a"
      by (intro filter_True) auto
    with assms(1) show "length (filter (\<lambda>v. v \<noteq> pad_token_id tok) (input_ids a)) = 5"
      by simp
  qed
  show ?thesis
    using assms full
    by (simp add: naive_call_def Let_def pad_sequence_def max_len_def has_shape_def ne_def
        count_true_ne)
qed

theorem collate_lengths_5_and_8_witness:
  "length (input_ids ex5) = 5 \<and> length (input_ids ex8) = 8 \<and>
   length (labels ex5) = 5 \<and> length (labels ex8) = 8 \<and>
   (\<exists>out. naive_call (demo_tok\<lparr>pad_token_id := 1\<rparr>) [ex5, ex8] = Inr out \<and>
      has_shape (input_ids out) 2 8 \<and> has_shape (labels out) 2 8 \<and>
      count_true (attention_mask out ! 0) = 5)"
proof -
  have a: "length (input_ids ex5) = 5" and b: "length (input_ids ex8) = 8"
    and c: "length (labels ex5) = 5" and d: "length (labels ex8) = 8"
    by (simp_all add: ex5_def ex8_def)
  from collate_lengths_5_and_8 [OF a b c d, of "demo_tok\<lparr>pad_token_id := 1\<rparr>"]
  show ?thesis
    using a b c d by (auto simp: ex5_def)
qed

text \<open>
  Claim C9 as stated fails when the pad id occurs in the first example: with pad id 0 and
  the 5 tokens \<open>[0, 11, 12, 13, 14]\<close> the first row of the mask has 4 true entries.
\<close>

theorem mask_counts_non_pad_tokens_counterexample:
  "length (input_ids ex5) = 5 \<and> length (input_ids ex8) = 8 \<and>
   pad_token_id demo_tok = 0 \<and>
   naive_call demo_tok [ex5, ex8] =
     Inr \<lparr>input_ids = [[0, 11, 12, 13, 14, 0, 0, 0], [21, 22, 23, 24, 25, 26, 27, 28]],
          labels =
            [[- 100, 11, 12, 13, 14, - 100, - 100, - 100],
             [- 100, - 100, 23, 24, 25, 26, 27, 28]],
          attention_mask =
            [[False, True, True, True, True, False, False, False],
             [True, True, True, True, True, True, True, True]]\<rparr> \<and>
   count_true [False, True, True, True, True, False, False, False] = 4"
  by (simp add: naive_call_def pad_sequence_def max_len_def ne_def ex5_def ex8_def demo_tok_def
      IGNORE_INDEX_def count_true_def)

subsection \<open>The loader\<close>

lemma map_err_Inr_nth:
  "map_err f xs = Inr ys \<Longrightarrow>
     length ys = length xs \<and> (\<forall>i < length xs. f (xs ! i) = Inr (ys ! i))"
proof (induction xs arbitrary: ys)
  case Nil
  then show ?case by simp
next
  case (Cons x xs)
  from Cons.prems obtain y ys' where y: "f x = Inr y" and ys': "map_err f xs = Inr ys'"
    and ys: "ys = y # ys'"
    by (auto split: sum.splits)
  from Cons.IH [OF ys'] y ys show ?case
    by (auto simp: nth_Cons split: nat.splits)
qed

lemma map_err_total:
  "\<forall>x \<in> set xs. \<exists>y. f x = Inr y \<Longrightarrow> \<exists>ys. map_err f xs = Inr ys"
proof (induction xs)
  case Nil
  show ?case by simp
next
  case (Cons x xs)
  then obtain y ys where "f x = Inr y" and "map_err f xs = Inr ys"
    by auto
  then show ?case by simp
qed

lemma prompt_input_split: "prompt_input = prompt_prefix @ ''{instruction}'' @ prompt_suffix"
  by (simp add: prompt_input_def prompt_prefix_def prompt_suffix_def)

lemma format_map_prompt_input:
  "format_map rt prompt_input example =
     (case py_getitem example ''instruction'' of
        Inl e \<Rightarrow> Inl e
      | Inr v \<Rightarrow> Inr (prompt_prefix @ py_str rt v @ prompt_suffix))"
  by (simp add: format_map_def prompt_input_def lookup_str_def prompt_prefix_def
      prompt_suffix_def split: sum.splits)

text \<open>
  Claim C4. When every record the loader holds has the keys \<^verbatim>\<open>instruction\<close> and \<^verbatim>\<open>output\<close>,
  the dataset is built, with one source and one target per record. For a record whose
  instruction is the string \<open>a\<close> and whose output is the string \<open>b\<close>, the source is the empty
  string if \<open>a\<close> is empty, and otherwise the text of the one template before its field, then
  \<open>a\<close> itself, then the text after the field, so it is not empty; the target is \<open>b\<close> followed
  by the end-of-sequence marker of the tokenizer.
\<close>

theorem format_examples_renders_prompt:
  assumes "\<forall>r \<in> set recs. \<exists>ins out.
             py_getitem r ''instruction'' = Inr ins \<and> py_getitem r ''output'' = Inr out"
    and "i < length recs"
    and "py_getitem (recs ! i) ''instruction'' = Inr (JStr a)"
    and "py_getitem (recs ! i) ''output'' = Inr (JStr b)"
  shows "\<exists>ds. format_examples rt tok recs = Inr ds \<and>
           length (sources ds) = length recs \<and>
           length (targets ds) = length recs \<and>
           sources ds ! i = (if a = [] then [] else prompt_prefix @ a @ prompt_suffix) \<and>
           (a \<noteq> [] \<longrightarrow> sources ds ! i \<noteq> []) \<and>
           targets ds ! i = b @ eos_token tok \<and>
           prompt_input = prompt_prefix @ ''{instruction}'' @ prompt_suffix"
proof -
  have "\<forall>r \<in> set recs. \<exists>y. format_map rt prompt_input r = Inr y"
    using assms(1) by (auto simp: format_map_prompt_input)
  then obtain fs where fs: "map_err (format_map rt prompt_input) recs = Inr fs"
    using map_err_total by blast
  have "\<forall>r \<in> set recs. \<exists>y. source_of rt r = Inr y"
    using assms(1) by (auto simp: source_of_def format_map_prompt_input)
  then obtain srcs where srcs: "map_err (source_of rt) recs = Inr srcs"
    using map_err_total by blast
  have "\<forall>r \<in> set recs. \<exists>y. target_of rt tok r = Inr y"
    using assms(1) by (auto simp: target_of_def)
  then obtain tgts where tgts: "map_err (target_of rt tok) recs = Inr tgts"
    using map_err_total by blast
  have run: "format_examples rt tok recs = Inr \<lparr>sources = srcs, targets = tgts\<rparr>"
    by (simp add: format_examples_def fs srcs tgts)
  have src_i: "source_of rt (recs ! i) = Inr (srcs ! i)" and len_s: "length srcs = length recs"
    using map_err_Inr_nth [OF srcs] assms(2) by simp_all
  have tgt_i: "target_of rt tok (recs ! i) = Inr (tgts ! i)" and len_t: "length tgts = length recs"
    using map_err_Inr_nth [OF tgts] assms(2) by simp_all
  have s: "srcs ! i = (if a = [] then [] else prompt_prefix @ a @ prompt_suffix)"
    using src_i assms(3)
    by (auto simp: source_of_def format_map_prompt_input py_str_def split: if_splits)
  have t: "tgts ! i = b @ eos_token tok"
    using tgt_i assms(4) by (simp add: target_of_def py_str_def)
  have nonempty: "a \<noteq> [] \<longrightarrow> srcs ! i \<noteq> []"
    by (simp add: s)
  show ?thesis
    using run len_s len_t s t nonempty prompt_input_split by simp
qed

theorem format_examples_renders_prompt_witness:
  "(\<exists>ds. format_examples demo_rt demo_tok [record_value, other_value] = Inr ds \<and>
      sources ds =
        [''<|user|>:'' @ [CHR 0x0A] @ ''Add 1 and 2.'' @ [CHR 0x0A] @
         ''<|assistant|>: Let'' @ [CHR 0x27] @
         ''s think step by step and solve the problem with code.'', []] \<and>
      targets ds = [''3</s>'', ''ok</s>''])"
proof -
  let ?recs = "[record_value, other_value]"
  have keys: "\<forall>r \<in> set ?recs. \<exists>ins out.
      py_getitem r ''instruction'' = Inr ins \<and> py_getitem r ''output'' = Inr out"
    by (simp add: record_value_def other_value_def)
  have i0: "(0::nat) < length ?recs" and i1: "(1::nat) < length ?recs"
    by simp_all
  have a0: "py_getitem (?recs ! 0) ''instruction'' = Inr (JStr ''Add 1 and 2.'')"
    and b0: "py_getitem (?recs ! 0) ''output'' = Inr (JStr ''3'')"
    and a1: "py_getitem (?recs ! 1) ''instruction'' = Inr (JStr [])"
    and b1: "py_getitem (?recs ! 1) ''output'' = Inr (JStr ''ok'')"
    by (simp_all add: record_value_def other_value_def)
  from format_examples_renders_prompt [OF keys i0 a0 b0, of demo_rt demo_tok]
    format_examples_renders_prompt [OF keys i1 a1 b1, of demo_rt demo_tok]
  obtain ds where ds: "format_examples demo_rt demo_tok ?recs = Inr ds"
    and len: "length (sources ds) = 2" "length (targets ds) = 2"
    and s0: "sources ds ! 0 = prompt_prefix @ ''Add 1 and 2.'' @ prompt_suffix"
    and t0: "targets ds ! 0 = ''3'' @ eos_token demo_tok"
    and s1: "sources ds ! 1 = []"
    and t1: "targets ds ! 1 = ''ok'' @ eos_token demo_tok"
    by auto
  have "sources ds = [sources ds ! 0, sources ds ! 1]"
    using len(1) by (intro nth_equalityI) (auto simp: less_Suc_eq numeral_eq_Suc)
  moreover have "targets ds = [targets ds ! 0, targets ds ! 1]"
    using len(2) by (intro nth_equalityI) (auto simp: less_Suc_eq numeral_eq_Suc)
  ultimately show ?thesis
    using ds s0 t0 s1 t1
    by (simp add: prompt_prefix_def prompt_suffix_def demo_tok_def)
qed

text \<open>
  Claim C5, amended. When every record the loader holds is an object with the keys
  \<^verbatim>\<open>query\<close> and \<^verbatim>\<open>response\<close> and without the key \<^verbatim>\<open>instruction\<close>, every record is rebuilt:
  record \<open>i\<close> becomes the object whose \<^verbatim>\<open>instruction\<close> is the query and whose \<^verbatim>\<open>output\<close> is
  the response of record \<open>i\<close>, copied as it is. So every record has the keys \<^verbatim>\<open>instruction\<close>
  and \<^verbatim>\<open>output\<close>, and its output is null exactly when its response was. (With no record
  left after truncation there is no first record to ask, and the loader raises
  \<^verbatim>\<open>IndexError\<close>.)
\<close>

theorem normalize_copies_query_response:
  assumes "\<forall>r \<in> set recs. \<exists>kvs q a.
             r = JObj kvs \<and> ''instruction'' \<notin> set (map fst kvs) \<and>
             map_of kvs ''query'' = Some q \<and> map_of kvs ''response'' = Some a"
  shows "(recs = [] \<longrightarrow> normalize_schema recs = Inl IndexError) \<and>
         (recs \<noteq> [] \<longrightarrow>
            (\<exists>recs'. normalize_schema recs = Inr recs' \<and> length recs' = length recs \<and>
               (\<forall>i < length recs. \<exists>q a.
                  py_getitem (recs ! i) ''query'' = Inr q \<and>
                  py_getitem (recs ! i) ''response'' = Inr a \<and>
                  recs' ! i = JObj [(''instruction'', q), (''output'', a)] \<and>
                  py_in ''instruction'' (recs' ! i) = Inr True \<and>
                  py_getitem (recs' ! i) ''instruction'' = Inr q \<and>
                  py_getitem (recs' ! i) ''output'' = Inr a \<and>
                  (py_getitem (recs' ! i) ''output'' = Inr JNull \<longleftrightarrow> a = JNull))))"
proof (cases recs)
  case Nil
  then show ?thesis by (simp add: normalize_schema_def)
next
  case (Cons first rest)
  have renamed: "\<forall>r \<in> set recs. \<exists>q a.
      py_getitem r ''query'' = Inr q \<and> py_getitem r ''response'' = Inr a \<and>
      rename r = Inr (JObj [(''instruction'', q), (''output'', a)])"
    using assms by (fastforce simp: rename_def)
  then have "\<forall>r \<in> set recs. \<exists>y. rename r = Inr y"
    by blast
  then obtain recs' where recs': "map_err rename recs = Inr recs'"
    using map_err_total by blast
  have "py_in ''instruction'' first = Inr False"
    using assms Cons by auto
  then have run: "normalize_schema recs = Inr recs'"
    using Cons recs' by (simp add: normalize_schema_def)
  have len: "length recs' = length recs"
    and nth: "\<forall>i < length recs. rename (recs ! i) = Inr (recs' ! i)"
    using map_err_Inr_nth [OF recs'] by simp_all
  have "\<forall>i < length recs. \<exists>q a.
      py_getitem (recs ! i) ''query'' = Inr q \<and>
      py_getitem (recs ! i) ''response'' = Inr a \<and>
      recs' ! i = JObj [(''instruction'', q), (''output'', a)] \<and>
      py_in ''instruction'' (recs' ! i) = Inr True \<and>
      py_getitem (recs' ! i) ''instruction'' = Inr q \<and>
      py_getitem (recs' ! i) ''output'' = Inr a \<and>
      (py_getitem (recs' ! i) ''output'' = Inr JNull \<longleftrightarrow> a = JNull)"
  proof (intro allI impI)
    fix i
    assume i: "i < length recs"
    then have "recs ! i \<in> set recs" by simp
    with renamed obtain q a where
      "py_getitem (recs ! i) ''query'' = Inr q" "py_getitem (recs ! i) ''response'' = Inr a"
      "rename (recs ! i) = Inr (JObj [(''instruction'', q), (''output'', a)])"
      by blast
    moreover from nth i have "rename (recs ! i) = Inr (recs' ! i)" by simp
    ultimately show "\<exists>q a.
      py_getitem (recs ! i) ''query'' = Inr q \<and>
      py_getitem (recs ! i) ''response'' = Inr a \<and>
      recs' ! i = JObj [(''instruction'', q), (''output'', a)] \<and>
      py_in ''instruction'' (recs' ! i) = Inr True \<and>
      py_getitem (recs' ! i) ''instruction'' = Inr q \<and>
      py_getitem (recs' ! i) ''output'' = Inr a \<and>
      (py_getitem (recs' ! i) ''output'' = Inr JNull \<longleftrightarrow> a = JNull)"
      by auto
  qed
  with run len Cons show ?thesis by simp
qed

theorem normalize_copies_query_response_witness:
  "normalize_schema array_records =
     Inr [JObj [(''instruction'', JStr ''q1''), (''output'', JStr ''r1'')],
          JObj [(''instruction'', JStr ''q2''), (''output'', JStr ''r2'')],
          JObj [(''instruction'', JStr ''q3''), (''output'', JStr ''r3'')]]"
proof -
  have schema: "\<forall>r \<in> set array_records. \<exists>kvs q a.
      r = JObj kvs \<and> ''instruction'' \<notin> set (map fst kvs) \<and>
      map_of kvs ''query'' = Some q \<and> map_of kvs ''response'' = Some a"
    by (simp add: array_records_def)
  have ne: "array_records \<noteq> []" and len: "length array_records = 3"
    by (simp_all add: array_records_def)
  from normalize_copies_query_response [OF schema] ne
  obtain recs' where run: "normalize_schema array_records = Inr recs'"
    and len': "length recs' = length array_records"
    and nth: "\<forall>i < length array_records. \<exists>q a.
      py_getitem (array_records ! i) ''query'' = Inr q \<and>
      py_getitem (array_records ! i) ''response'' = Inr a \<and>
      recs' ! i = JObj [(''instruction'', q), (''output'', a)] \<and>
      py_in ''instruction'' (recs' ! i) = Inr True \<and>
      py_getitem (recs' ! i) ''instruction'' = Inr q \<and>
      py_getitem (recs' ! i) ''output'' = Inr a \<and>
      (py_getitem (recs' ! i) ''output'' = Inr JNull \<longleftrightarrow> a = JNull)"
    by blast
  have "recs' ! 0 = JObj [(''instruction'', JStr ''q1''), (''output'', JStr ''r1'')]"
    and "recs' ! 1 = JObj [(''instruction'', JStr ''q2''), (''output'', JStr ''r2'')]"
    and "recs' ! 2 = JObj [(''instruction'', JStr ''q3''), (''output'', JStr ''r3'')]"
    using nth [rule_format, of 0] nth [rule_format, of 1] nth [rule_format, of 2]
    by (auto simp: array_records_def)
  moreover have "recs' = [recs' ! 0, recs' ! 1, recs' ! 2]"
    using len' len by (intro nth_equalityI) (auto simp: less_Suc_eq numeral_eq_Suc)
  ultimately show ?thesis
    using run by simp
qed

text \<open>
  Claim C5 as stated fails on a record whose response is null: the record is rebuilt with
  the output \<^verbatim>\<open>None\<close>, and its target is the text \<^verbatim>\<open>None\<close> followed by the end-of-sequence
  marker.
\<close>

theorem null_response_counterexample:
  "null_response_record = JObj [(''query'', JStr ''q''), (''response'', JNull)] \<and>
   normalize_schema [null_response_record] =
     Inr [JObj [(''instruction'', JStr ''q''), (''output'', JNull)]] \<and>
   py_getitem (JObj [(''instruction'', JStr ''q''), (''output'', JNull)]) ''output'' = Inr JNull \<and>
   str_of demo_rt JNull = ''None'' \<and>
   map_sum id targets
     (format_examples demo_rt demo_tok [JObj [(''instruction'', JStr ''q''), (''output'', JNull)]]) =
     Inr [''None</s>'']"
proof -
  have norm: "normalize_schema [null_response_record] =
      Inr [JObj [(''instruction'', JStr ''q''), (''output'', JNull)]]"
    by (simp add: normalize_schema_def null_response_record_def rename_def)
  have str: "str_of demo_rt JNull = ''None''"
    by (simp add: demo_rt_def)
  have fmt: "map_sum id targets
      (format_examples demo_rt demo_tok
         [JObj [(''instruction'', JStr ''q''), (''output'', JNull)]]) = Inr [''None</s>'']"
    by (simp add: format_examples_def format_map_prompt_input source_of_def target_of_def
        py_str_def str demo_tok_def)
  show ?thesis
    using norm str fmt by (simp add: null_response_record_def)
qed








lemma mset_map_nth_perm:
  assumes "mset p = mset [0..<length xs]"
  shows "mset (map (\<lambda>i. xs ! i) p) = mset xs"
proof -
  have "mset (map (\<lambda>i. xs ! i) p) = image_mset (\<lambda>i. xs ! i) (mset p)"
    by simp
  also have "\<dots> = image_mset (\<lambda>i. xs ! i) (mset [0..<length xs])"
    using assms by simp
  also have "\<dots> = mset (map (\<lambda>i. xs ! i) [0..<length xs])"
    by simp
  also have "\<dots> = mset xs"
    by (simp add: map_nth)
  finally show ?thesis .
qed

lemma rev_upt_3: "rev [0..<3] = [2, 1, 0]"
  by (simp add: numeral_eq_Suc)

lemma loads_line_at_state: "loads_line (at_state rt gen g) = loads_line rt"
  by (rule ext) (simp add: at_state_def loads_line_def)

lemma jload_at_state: "jload (at_state rt gen g) path = jload rt path"
  by (simp add: at_state_def jload_def split: option.splits)

lemma files_at_state: "files (at_state rt gen g) = files rt"
  by (simp add: at_state_def)

lemma read_data_at_state: "read_data (at_state rt gen g) path = read_data rt path"
  by (simp add: read_data_def jload_at_state loads_line_at_state files_at_state
      split: sum.splits option.splits)

lemma sample_order_at_state:
  "sample_order (at_state rt gen g) n k = fst (sampled gen g n k)"
  by (simp add: at_state_def)

lemma construction_state_seeded:
  "construction_state gen g0 = model_setup gen (seeded gen 42)"
  by (simp add: construction_state_def seed_torch_def random_seed_def Let_def)

text \<open>
  Claim C7, amended. \<^verbatim>\<open>train\<close> seeds the generator with 42 before it constructs the dataset,
  so the state the constructor samples in is the one the seed 42 and the library calls
  after it determine, whatever state the process started in. When the file parsed to a list
  of records, \<^verbatim>\<open>random.sample\<close> in that state returns a permutation of the list (the records
  at the positions picked, each position once), and for a cap \<open>data_length\<close> that is not
  negative the loader retains exactly the first \<open>data_length\<close> elements of that permutation:
  the list is shuffled first and cut second. Two runs from any two starting states
  therefore construct the same dataset, from the same records in the same order, and leave
  the generator in the same state, the one after the sample.
\<close>

theorem shuffle_before_truncate:
  assumes "read_data rt (data_path args) = Inr (JArr xs)"
    and "mset (fst (sampled gen (model_setup gen (seeded gen 42)) (length xs) (length xs))) =
         mset [0..<length xs]"
    and "0 \<le> data_length args"
  shows "\<exists>g shuffled.
           g = model_setup gen (seeded gen 42) \<and>
           construction_state gen g0 = g \<and>
           shuffled = map (\<lambda>i. xs ! i) (fst (sampled gen g (length xs) (length xs))) \<and>
           mset shuffled = mset xs \<and>
           random_sample (at_state rt gen g) (JArr xs) (length xs) = Inr shuffled \<and>
           shuffle_truncate (at_state rt gen g) args (JArr xs) =
             Inr (take (nat (data_length args)) shuffled) \<and>
           load_records (at_state rt gen g) args =
             normalize_schema (take (nat (data_length args)) shuffled) \<and>
           train_dataset rt gen g0 args tok =
             (SupervisedDataset_init (at_state rt gen g) args tok,
              snd (sampled gen g (length xs) (length xs))) \<and>
           train_dataset rt gen g0' args tok = train_dataset rt gen g0 args tok"
proof -
  let ?g = "model_setup gen (seeded gen 42)"
  let ?shuffled = "map (\<lambda>i. xs ! i) (fst (sampled gen ?g (length xs) (length xs)))"
  have state: "construction_state gen g0 = ?g" and state': "construction_state gen g0' = ?g"
    by (simp_all add: construction_state_seeded)
  have perm: "mset ?shuffled = mset xs"
    using assms(2) by (rule mset_map_nth_perm)
  have sample: "random_sample (at_state rt gen ?g) (JArr xs) (length xs) = Inr ?shuffled"
    by (simp add: random_sample_def sample_order_at_state)
  have trunc: "shuffle_truncate (at_state rt gen ?g) args (JArr xs) =
      Inr (take (nat (data_length args)) ?shuffled)"
    using assms(3) by (simp add: shuffle_truncate_def sample slice_to_def)
  have recs: "load_records (at_state rt gen ?g) args =
      normalize_schema (take (nat (data_length args)) ?shuffled)"
    by (simp add: load_records_def read_data_at_state assms(1) trunc)
  have after: "state_after_init rt gen ?g args = snd (sampled gen ?g (length xs) (length xs))"
    by (simp add: state_after_init_def assms(1))
  have run: "train_dataset rt gen g0 args tok =
      (SupervisedDataset_init (at_state rt gen ?g) args tok,
       snd (sampled gen ?g (length xs) (length xs)))"
    by (simp add: train_dataset_def state after Let_def)
  have same: "train_dataset rt gen g0' args tok = train_dataset rt gen g0 args tok"
    by (simp add: train_dataset_def state state' Let_def)
  show ?thesis
    using state perm sample trunc recs run same by blast
qed

lemma demo_sampled_even: "even g \<Longrightarrow> sampled demo_gen g n 3 = ([2, 1, 0], Suc g)"
  by (simp add: demo_gen_def rev_upt_3)

lemma demo_sampled_odd: "odd g \<Longrightarrow> sampled demo_gen g n 3 = ([0, 1, 2], Suc g)"
  by (simp add: demo_gen_def numeral_eq_Suc)

theorem shuffle_before_truncate_witness:
  "construction_state demo_gen 0 = 42 \<and>
   construction_state demo_gen 7 = 42 \<and>
   shuffle_truncate (at_state demo_rt demo_gen 42)
       \<lparr>data_path = ''array.json'', data_length = 2\<rparr> (JArr array_records) =
     Inr [JObj [(''query'', JStr ''q3''), (''response'', JStr ''r3'')],
          JObj [(''query'', JStr ''q2''), (''response'', JStr ''r2'')]] \<and>
   train_dataset demo_rt demo_gen 7 \<lparr>data_path = ''array.json'', data_length = 2\<rparr> demo_tok =
     train_dataset demo_rt demo_gen 0 \<lparr>data_path = ''array.json'', data_length = 2\<rparr> demo_tok \<and>
   snd (train_dataset demo_rt demo_gen 0 \<lparr>data_path = ''array.json'', data_length = 2\<rparr>
          demo_tok) = 43"
proof -
  let ?args = "\<lparr>data_path = ''array.json'', data_length = 2\<rparr>"
  have len: "length array_records = 3"
    by (simp add: array_records_def)
  have g: "model_setup demo_gen (seeded demo_gen 42) = 42"
    by (simp add: demo_gen_def)
  have rd: "read_data demo_rt (data_path ?args) = Inr (JArr array_records)"
    by (simp add: read_data_def jload_def demo_rt_def demo_files_def demo_loads_def
        record_text_def other_text_def array_text_def one_line_text_def)
  have order: "sampled demo_gen 42 3 3 = ([2, 1, 0], 43)"
    using demo_sampled_even [of 42 3] by simp
  have perm: "mset (fst (sampled demo_gen (model_setup demo_gen (seeded demo_gen 42))
      (length array_records) (length array_records))) = mset [0..<length array_records]"
    unfolding g len order by (simp add: numeral_eq_Suc)
  have cap: "0 \<le> data_length ?args"
    by simp
  have shuffled: "map (\<lambda>i. array_records ! i) [2, 1, 0] =
      [JObj [(''query'', JStr ''q3''), (''response'', JStr ''r3'')],
       JObj [(''query'', JStr ''q2''), (''response'', JStr ''r2'')],
       JObj [(''query'', JStr ''q1''), (''response'', JStr ''r1'')]]"
    by (simp add: array_records_def)
  from shuffle_before_truncate [OF rd perm cap, of 0 demo_tok 7]
  have st0: "construction_state demo_gen 0 = 42"
    and tr: "shuffle_truncate (at_state demo_rt demo_gen 42) ?args (JArr array_records) =
      Inr (take (nat (data_length ?args))
             (map (\<lambda>i. array_records ! i) (fst (sampled demo_gen 42 3 3))))"
    and run: "train_dataset demo_rt demo_gen 0 ?args demo_tok =
      (SupervisedDataset_init (at_state demo_rt demo_gen 42) ?args demo_tok,
       snd (sampled demo_gen 42 3 3))"
    and same: "train_dataset demo_rt demo_gen 7 ?args demo_tok =
      train_dataset demo_rt demo_gen 0 ?args demo_tok"
    unfolding g len by blast+
  from shuffle_before_truncate [OF rd perm cap, of 7 demo_tok 0]
  have st7: "construction_state demo_gen 7 = 42"
    unfolding g len by blast
  have tr': "shuffle_truncate (at_state demo_rt demo_gen 42) ?args (JArr array_records) =
     Inr [JObj [(''query'', JStr ''q3''), (''response'', JStr ''r3'')],
          JObj [(''query'', JStr ''q2''), (''response'', JStr ''r2'')]]"
    using tr unfolding order fst_conv shuffled by (simp add: numeral_eq_Suc)
  have after: "snd (train_dataset demo_rt demo_gen 0 ?args demo_tok) = 43"
    using run by (simp add: order)
  show ?thesis
    using st0 st7 tr' same after by simp
qed

text \<open>
  Without a new seeding the state matters: in the state the first sample leaves, the same
  records are retained in another order.
\<close>

lemma construction_depends_on_state:
  "shuffle_truncate (at_state demo_rt demo_gen 42)
       \<lparr>data_path = ''array.json'', data_length = 2\<rparr> (JArr array_records) \<noteq>
   shuffle_truncate (at_state demo_rt demo_gen 43)
       \<lparr>data_path = ''array.json'', data_length = 2\<rparr> (JArr array_records)"
proof -
  have len: "length array_records = 3"
    by (simp add: array_records_def)
  have a: "sampled demo_gen 42 3 3 = ([2, 1, 0], 43)"
    using demo_sampled_even [of 42 3] by simp
  have b: "sampled demo_gen 43 3 3 = ([0, 1, 2], 44)"
    using demo_sampled_odd [of 43 3] by simp
  show ?thesis
    by (simp add: shuffle_truncate_def random_sample_def sample_order_at_state len a b
        slice_to_def)
      (simp add: array_records_def numeral_eq_Suc)
qed

text \<open>
  Claim C7 as stated fails for a negative cap: \<^verbatim>\<open>xs[:-1]\<close> drops the last element, so with
  \<open>data_length = -1\<close> and three records the loader retains two of them and builds a dataset
  of two examples.
\<close>

theorem negative_cap_counterexample:
  "random_sample demo_rt (JArr array_records) 3 =
     Inr [JObj [(''query'', JStr ''q3''), (''response'', JStr ''r3'')],
          JObj [(''query'', JStr ''q2''), (''response'', JStr ''r2'')],
          JObj [(''query'', JStr ''q1''), (''response'', JStr ''r1'')]] \<and>
   shuffle_truncate demo_rt \<lparr>data_path = ''array.json'', data_length = - 1\<rparr>
       (JArr array_records) =
     Inr [JObj [(''query'', JStr ''q3''), (''response'', JStr ''r3'')],
          JObj [(''query'', JStr ''q2''), (''response'', JStr ''r2'')]] \<and>
   take (nat (- 1))
     [JObj [(''query'', JStr ''q3''), (''response'', JStr ''r3'')],
      JObj [(''query'', JStr ''q2''), (''response'', JStr ''r2'')],
      JObj [(''query'', JStr ''q1''), (''response'', JStr ''r1'')]] = [] \<and>
   map_sum id targets
     (SupervisedDataset_init demo_rt \<lparr>data_path = ''array.json'', data_length = - 1\<rparr> demo_tok) =
     Inr [''r3</s>'', ''r2</s>'']"
proof -
  have order: "sample_order demo_rt n 3 = [2, 1, 0]" for n
    by (simp add: demo_rt_def rev_upt_3)
  have sample: "random_sample demo_rt (JArr array_records) 3 =
     Inr [JObj [(''query'', JStr ''q3''), (''response'', JStr ''r3'')],
          JObj [(''query'', JStr ''q2''), (''response'', JStr ''r2'')],
          JObj [(''query'', JStr ''q1''), (''response'', JStr ''r1'')]]"
    by (simp add: random_sample_def array_records_def order)
  have trunc: "shuffle_truncate demo_rt \<lparr>data_path = ''array.json'', data_length = - 1\<rparr>
       (JArr array_records) =
     Inr [JObj [(''query'', JStr ''q3''), (''response'', JStr ''r3'')],
          JObj [(''query'', JStr ''q2''), (''response'', JStr ''r2'')]]"
  proof -
    have k: "length array_records = 3"
      by (simp add: array_records_def)
    show ?thesis
      by (simp add: shuffle_truncate_def k sample slice_to_def)
  qed
  have rd: "read_data demo_rt ''array.json'' = Inr (JArr array_records)"
    by (simp add: read_data_def jload_def demo_rt_def demo_files_def demo_loads_def
        record_text_def other_text_def array_text_def one_line_text_def)
  have recs: "load_records demo_rt \<lparr>data_path = ''array.json'', data_length = - 1\<rparr> =
     Inr [JObj [(''instruction'', JStr ''q3''), (''output'', JStr ''r3'')],
          JObj [(''instruction'', JStr ''q2''), (''output'', JStr ''r2'')]]"
    by (simp add: load_records_def rd trunc normalize_schema_def rename_def)
  have init: "map_sum id targets
     (SupervisedDataset_init demo_rt \<lparr>data_path = ''array.json'', data_length = - 1\<rparr> demo_tok) =
     Inr [''r3</s>'', ''r2</s>'']"
    by (simp add: SupervisedDataset_init_def recs format_examples_def format_map_prompt_input
        source_of_def target_of_def py_str_def demo_tok_def)
  show ?thesis
    using sample trunc init by simp
qed

text \<open>
  Claim C10. When the file parses to a list of records and the list is empty or the cap
  \<open>data_length\<close> is 0, no record is left after truncation, and the constructor raises
  \<^verbatim>\<open>IndexError\<close> where it asks the first record for its schema; it builds no dataset.
\<close>

theorem empty_records_raise_IndexError:
  assumes "read_data rt (data_path args) = Inr (JArr xs)"
    and "mset (sample_order rt (length xs) (length xs)) = mset [0..<length xs]"
    and "xs = [] \<or> data_length args = 0"
  shows "SupervisedDataset_init rt args tok = Inl IndexError"
proof -
  have "shuffle_truncate rt args (JArr xs) = Inr []"
    using assms(3)
  proof
    assume "xs = []"
    moreover from this assms(2) have "sample_order rt 0 0 = []"
      by simp
    ultimately show ?thesis
      by (simp add: shuffle_truncate_def random_sample_def slice_to_def)
  next
    assume "data_length args = 0"
    then show ?thesis
      by (simp add: shuffle_truncate_def random_sample_def slice_to_def)
  qed
  then show ?thesis
    using assms(1)
    by (simp add: SupervisedDataset_init_def load_records_def normalize_schema_def)
qed

theorem empty_records_raise_IndexError_witness:
  "SupervisedDataset_init demo_rt \<lparr>data_path = ''empty.json'', data_length = 10\<rparr> demo_tok =
     Inl IndexError \<and>
   SupervisedDataset_init demo_rt \<lparr>data_path = ''array.json'', data_length = 0\<rparr> demo_tok =
     Inl IndexError"
proof -
  have rd1: "read_data demo_rt (data_path \<lparr>data_path = ''empty.json'', data_length = 10\<rparr>) =
      Inr (JArr [])"
    and rd2: "read_data demo_rt (data_path \<lparr>data_path = ''array.json'', data_length = 0\<rparr>) =
      Inr (JArr array_records)"
    by (simp_all add: read_data_def jload_def demo_rt_def demo_files_def demo_loads_def
        record_text_def other_text_def array_text_def one_line_text_def)
  have p1: "mset (sample_order demo_rt (length ([] :: json list)) (length ([] :: json list))) =
      mset [0..<length ([] :: json list)]"
    and p2: "mset (sample_order demo_rt (length array_records) (length array_records)) =
      mset [0..<length array_records]"
    by (simp_all add: demo_rt_def)
  have c1: "([] :: json list) = [] \<or> data_length \<lparr>data_path = ''empty.json'', data_length = 10\<rparr> = 0"
    and c2: "array_records = [] \<or> data_length \<lparr>data_path = ''array.json'', data_length = 0\<rparr> = 0"
    by simp_all
  from empty_records_raise_IndexError [OF rd1 p1 c1, of demo_tok]
    empty_records_raise_IndexError [OF rd2 p2 c2, of demo_tok]
  show ?thesis by simp
qed


end
